theory Spec2Isabelle
  imports Main "HOL-Library.Word" "HOL-Library.Signed_Division"
begin

section \<open>MinedMap: PNG tiles, mipmap composition and the NBT double tag\<close>

text \<open>
  The development follows \<^verbatim>\<open>src/PNG.cpp\<close> (functions \<^verbatim>\<open>write\<close>, \<^verbatim>\<open>read\<close>,
  \<^verbatim>\<open>readScaled\<close>, \<^verbatim>\<open>mipmap\<close>) and \<^verbatim>\<open>src/NBT/DoubleTag.hpp\<close>.

  Pixel data is a list of bytes (\<^verbatim>\<open>uint8_t\<close>), row-major, without padding. Sizes and
  indices (\<^verbatim>\<open>size_t\<close>, taken to be 64 bits wide) are natural numbers: PNG dimensions are
  below \<open>2^31\<close>, so for every image that \<^verbatim>\<open>read\<close> accepts no index expression of the
  source reaches \<open>2^64\<close>.
\<close>

subsection \<open>Channel arithmetic\<close>

type_synonym uint8_t = "8 word"

text \<open>
  The operands of \<^verbatim>\<open>+\<close> in line 136 of \<^verbatim>\<open>PNG.cpp\<close> are \<^verbatim>\<open>uint8_t\<close> values, which C++
  promotes to \<^verbatim>\<open>int\<close> (32 bits, two's complement). \<open>promote\<close> is that conversion,
  \<open>channel_sum\<close> the 32-bit sum, \<open>channel_quot\<close> the signed (truncating) division by 4
  and \<open>channel_avg\<close> the conversion of the quotient back to \<^verbatim>\<open>uint8_t\<close> on assignment
  (reduction modulo 256).
\<close>

definition promote :: "uint8_t \<Rightarrow> 32 word" where
  "promote x = ucast x"

definition channel_sum :: "uint8_t \<Rightarrow> uint8_t \<Rightarrow> uint8_t \<Rightarrow> uint8_t \<Rightarrow> 32 word" where
  "channel_sum p q r s = promote p + promote q + promote r + promote s"

definition channel_quot :: "uint8_t \<Rightarrow> uint8_t \<Rightarrow> uint8_t \<Rightarrow> uint8_t \<Rightarrow> int" where
  "channel_quot p q r s = sint (channel_sum p q r s) sdiv 4"

definition channel_avg :: "uint8_t \<Rightarrow> uint8_t \<Rightarrow> uint8_t \<Rightarrow> uint8_t \<Rightarrow> uint8_t" where
  "channel_avg p q r s = word_of_int (channel_quot p q r s)"

subsection \<open>Errors and loops\<close>

text \<open>
  \<open>system_error\<close> and \<open>runtime_error\<close> are the two C++ exceptions that \<^verbatim>\<open>PNG.cpp\<close>
  throws (\<^verbatim>\<open>std::system_error\<close>, \<^verbatim>\<open>std::runtime_error\<close> with its message).
  \<open>out_of_bounds\<close> is no exception: it marks an access outside an allocation, which is
  undefined behaviour in C++; the model stops there.
\<close>

datatype error = system_error | runtime_error string | out_of_bounds

text \<open>
  \<^verbatim>\<open>for (size_t i = i0; i < n; i++) body\<close>, where the body updates a state or stops
  with an error.
\<close>

function for_loop :: "nat \<Rightarrow> nat \<Rightarrow> (nat \<Rightarrow> 's \<Rightarrow> error + 's) \<Rightarrow> 's \<Rightarrow> error + 's" where
  "for_loop i n body s =
     (if i < n
      then (case body i s of Inl e \<Rightarrow> Inl e | Inr s' \<Rightarrow> for_loop (Suc i) n body s')
      else Inr s)"
  by pat_completeness auto
termination
  by (relation "measure (\<lambda>(i, n, body, s). n - i)") auto

declare for_loop.simps [simp del]

subsection \<open>Files, libpng and the environment\<close>

text \<open>
  libpng is an external library. A file is either not a PNG image, or a PNG image given by
  what libpng reports after \<^verbatim>\<open>png_read_png\<close>: the header fields and the rows of
  \<^verbatim>\<open>png_get_rows\<close>.
\<close>

datatype color_type =
  PNG_COLOR_TYPE_GRAY | PNG_COLOR_TYPE_PALETTE | PNG_COLOR_TYPE_RGB
  | PNG_COLOR_TYPE_RGB_ALPHA | PNG_COLOR_TYPE_GRAY_ALPHA

record png_image =
  png_image_width :: nat
  png_image_height :: nat
  png_bit_depth :: nat
  png_color_type :: color_type
  png_rows :: "uint8_t list list"

datatype file_content = not_png | png png_image

text \<open>
  The world: the files by name, and the \<^verbatim>\<open>FILE\<close> handles that are open (one entry per
  \<^verbatim>\<open>fopen\<close> without its \<^verbatim>\<open>fclose\<close>).
\<close>

record world =
  files :: "string \<rightharpoonup> file_content"
  open_files :: "string list"

text \<open>
  What the calls into the C library and libpng answer during one call: whether a file can
  be opened for writing, whether each \<^verbatim>\<open>png_create_..._struct\<close> returns a structure
  (rather than a null pointer), and whether libpng finishes writing without calling its error
  handler (which is the \<^verbatim>\<open>longjmp\<close> to the \<^verbatim>\<open>setjmp\<close> of the caller).
\<close>

record env =
  can_write :: "string \<Rightarrow> bool"
  create_write_struct_ok :: bool
  create_read_struct_ok :: bool
  create_info_struct_ok :: bool
  create_end_info_ok :: bool
  write_png_ok :: bool

definition fopen :: "world \<Rightarrow> string \<Rightarrow> world" where
  "fopen w filename = w\<lparr>open_files := filename # open_files w\<rparr>"

definition fclose :: "world \<Rightarrow> string \<Rightarrow> world" where
  "fclose w filename = w\<lparr>open_files := remove1 filename (open_files w)\<rparr>"

subsection \<open>\<^verbatim>\<open>write\<close>\<close>

text \<open>
  Lines 68--69: \<^verbatim>\<open>row_pointers[i] = &data[(colored ? 4 : 2)*i*width]\<close>, as offsets into
  \<^verbatim>\<open>data\<close>. libpng then reads \<open>(colored ? 4 : 2) * width\<close> bytes from each.
\<close>

definition row_pointers :: "nat \<Rightarrow> nat \<Rightarrow> bool \<Rightarrow> nat list" where
  "row_pointers width height colored =
     map (\<lambda>i. (if colored then 4 else 2) * i * width) [0..<height]"

definition png_write_rows :: "uint8_t list \<Rightarrow> nat list \<Rightarrow> nat \<Rightarrow> uint8_t list list" where
  "png_write_rows data ptrs rowbytes = map (\<lambda>p. take rowbytes (drop p data)) ptrs"

text \<open>
  Opening with mode \<^verbatim>\<open>"wb"\<close> truncates the file, so from then on it is no PNG image
  until libpng has written all of it. The two early \<^verbatim>\<open>throw\<close>s (lines 48 and 53) leave
  the function without \<^verbatim>\<open>fclose\<close>; the \<^verbatim>\<open>setjmp\<close> branch and the normal end close
  the file. libpng reads the rows through the row pointers while it writes: a buffer of
  fewer than \<open>(colored ? 4 : 2) * width * height\<close> bytes would be read past its end. The
  function is \<^verbatim>\<open>PNG::write\<close>; it is called \<open>write_png\<close> here because \<open>write\<close> is a
  keyword of Isabelle.
\<close>

definition write_png ::
  "env \<Rightarrow> world \<Rightarrow> string \<Rightarrow> uint8_t list \<Rightarrow> nat \<Rightarrow> nat \<Rightarrow> bool \<Rightarrow> error option \<times> world" where
  "write_png e w filename data width height colored =
     (if \<not> can_write e filename then (Some system_error, w)
      else
        let w1 = fopen (w\<lparr>files := (files w)(filename \<mapsto> not_png)\<rparr>) filename in
        if \<not> create_write_struct_ok e
        then (Some (runtime_error ''unable to create PNG write struct''), w1)
        else if \<not> create_info_struct_ok e
        then (Some (runtime_error ''unable to create PNG info struct''), w1)
        else if \<not> write_png_ok e
        then (Some (runtime_error ''unable to write PNG file''), fclose w1 filename)
        else if length data < (if colored then 4 else 2) * width * height
        then (Some out_of_bounds, w1)
        else
          let img = \<lparr>png_image_width = width, png_image_height = height, png_bit_depth = 8,
                     png_color_type =
                       (if colored then PNG_COLOR_TYPE_RGB_ALPHA else PNG_COLOR_TYPE_GRAY_ALPHA),
                     png_rows = png_write_rows data (row_pointers width height colored)
                                  ((if colored then 4 else 2) * width)\<rparr>
          in (None, fclose (w1\<lparr>files := (files w1)(filename \<mapsto> png img)\<rparr>) filename))"

subsection \<open>\<^verbatim>\<open>read\<close>\<close>

text \<open>\<^verbatim>\<open>std::memcpy(&dest[off], src, n)\<close>.\<close>

definition memcpy :: "uint8_t list \<Rightarrow> nat \<Rightarrow> uint8_t list \<Rightarrow> nat \<Rightarrow> error + uint8_t list" where
  "memcpy dest off src n =
     (if off + n \<le> length dest \<and> n \<le> length src
      then Inr (take off dest @ take n src @ drop (off + n) dest)
      else Inl out_of_bounds)"

text \<open>Lines 116--117: the loop that copies the decoded rows into the caller's buffer.\<close>

definition copy_rows ::
  "uint8_t list list \<Rightarrow> nat \<Rightarrow> nat \<Rightarrow> bool \<Rightarrow> uint8_t list \<Rightarrow> error + uint8_t list" where
  "copy_rows rows width height colored data =
     for_loop 0 height
       (\<lambda>i d. if i < length rows
              then memcpy d ((if colored then 4 else 2) * i * width) (rows ! i)
                     ((if colored then 4 else 2) * width)
              else Inl out_of_bounds)
       data"

text \<open>
  The result is the exception (if any), the caller's buffer and the world. A file can be
  opened for reading when it exists. The three early \<^verbatim>\<open>throw\<close>s (lines 85, 90, 96) leave
  without \<^verbatim>\<open>fclose\<close>. A file that libpng cannot decode and a decoded image whose header
  differs from the request (lines 109--113) both end in the \<^verbatim>\<open>setjmp\<close> branch, which
  closes the file and throws.
\<close>

definition read ::
  "env \<Rightarrow> world \<Rightarrow> string \<Rightarrow> uint8_t list \<Rightarrow> nat \<Rightarrow> nat \<Rightarrow> bool
     \<Rightarrow> error option \<times> uint8_t list \<times> world" where
  "read e w filename data width height colored =
     (case files w filename of
        None \<Rightarrow> (Some system_error, data, w)
      | Some content \<Rightarrow>
          let w1 = fopen w filename in
          if \<not> create_read_struct_ok e
          then (Some (runtime_error ''unable to create PNG read struct''), data, w1)
          else if \<not> create_info_struct_ok e
          then (Some (runtime_error ''unable to create PNG info struct''), data, w1)
          else if \<not> create_end_info_ok e
          then (Some (runtime_error ''unable to create PNG info struct''), data, w1)
          else
            (case content of
               not_png \<Rightarrow>
                 (Some (runtime_error ''unable to read PNG file''), data, fclose w1 filename)
             | png img \<Rightarrow>
                 if png_image_width img \<noteq> width
                    \<or> png_image_height img \<noteq> height
                    \<or> png_bit_depth img \<noteq> 8
                    \<or> png_color_type img \<noteq>
                        (if colored then PNG_COLOR_TYPE_RGB_ALPHA else PNG_COLOR_TYPE_GRAY_ALPHA)
                 then (Some (runtime_error ''unable to read PNG file''), data, fclose w1 filename)
                 else
                   (case copy_rows (png_rows img) width height colored data of
                      Inl err \<Rightarrow> (Some err, data, w1)
                    | Inr data' \<Rightarrow> (None, data', fclose w1 filename))))"

subsection \<open>\<^verbatim>\<open>readScaled\<close>\<close>

text \<open>Line 135--136, the body of the innermost loop, with every access checked.\<close>

definition scale_channel ::
  "uint8_t list \<Rightarrow> nat \<Rightarrow> nat \<Rightarrow> nat \<Rightarrow> nat \<Rightarrow> nat \<Rightarrow> nat \<Rightarrow> nat \<Rightarrow> uint8_t list
     \<Rightarrow> error + uint8_t list" where
  "scale_channel input b width offset_w offset_h h w c data =
     (let i = 2 * b * (width * h + w) + c;
          j = b * (width * (offset_h + h) + offset_w + w) + c
      in if i < length input \<and> i + b < length input \<and> i + b * width < length input
            \<and> i + b * width + b < length input \<and> j < length data
         then Inr (data[j := channel_avg (input ! i) (input ! (i + b))
                               (input ! (i + b * width)) (input ! (i + b * width + b))])
         else Inl out_of_bounds)"

text \<open>
  Lines 132--139. The bound of the outer loop over \<open>h\<close> is \<^verbatim>\<open>width/2\<close>, as the source
  has it.
\<close>

definition scale_loops ::
  "uint8_t list \<Rightarrow> nat \<Rightarrow> nat \<Rightarrow> nat \<Rightarrow> nat \<Rightarrow> uint8_t list \<Rightarrow> error + uint8_t list" where
  "scale_loops input b width offset_w offset_h data =
     for_loop 0 (width div 2)
       (\<lambda>h. for_loop 0 (width div 2)
          (\<lambda>w. for_loop 0 b
             (\<lambda>c. scale_channel input b width offset_w offset_h h w c)))
       data"

text \<open>
  \<^verbatim>\<open>new uint8_t[b*width*height]\<close> is not initialised; the model fills it with zeros.
  \<^verbatim>\<open>read\<close> either throws or overwrites all of it.
\<close>

definition readScaled ::
  "env \<Rightarrow> world \<Rightarrow> uint8_t list \<Rightarrow> nat \<Rightarrow> nat \<Rightarrow> string option \<Rightarrow> nat \<Rightarrow> nat \<Rightarrow> bool
     \<Rightarrow> error option \<times> uint8_t list \<times> world" where
  "readScaled e w data offset_w offset_h file width height colored =
     (case file of
        None \<Rightarrow> (None, data, w)
      | Some filename \<Rightarrow>
          let b = (if colored then 4 else 2) in
          (case read e w filename (replicate (b * width * height) 0) width height colored of
             (Some err, input, w1) \<Rightarrow> (Some err, data, w1)
           | (None, input, w1) \<Rightarrow>
               (case scale_loops input b width offset_w offset_h data of
                  Inl err \<Rightarrow> (Some err, data, w1)
                | Inr data' \<Rightarrow> (None, data', w1))))"

subsection \<open>\<^verbatim>\<open>mipmap\<close>\<close>

definition mipmap ::
  "env \<Rightarrow> world \<Rightarrow> string \<Rightarrow> nat \<Rightarrow> nat \<Rightarrow> bool
     \<Rightarrow> string option \<Rightarrow> string option \<Rightarrow> string option \<Rightarrow> string option
     \<Rightarrow> error option \<times> world" where
  "mipmap e w output width height colored nw ne sw se =
     (let size = (if colored then 4 else 2) * width * height;
          data = replicate size 0
      in case readScaled e w data 0 0 nw width height colored of
           (Some err, d, w1) \<Rightarrow> (Some err, w1)
         | (None, data1, w1) \<Rightarrow>
       (case readScaled e w1 data1 (width div 2) 0 ne width height colored of
           (Some err, d, w2) \<Rightarrow> (Some err, w2)
         | (None, data2, w2) \<Rightarrow>
       (case readScaled e w2 data2 0 (height div 2) sw width height colored of
           (Some err, d, w3) \<Rightarrow> (Some err, w3)
         | (None, data3, w3) \<Rightarrow>
       (case readScaled e w3 data3 (width div 2) (height div 2) se width height colored of
           (Some err, d, w4) \<Rightarrow> (Some err, w4)
         | (None, data4, w4) \<Rightarrow> write_png e w4 output data4 width height colored))))"

subsection \<open>The raster layout, for stating properties\<close>

text \<open>
  The channel \<open>c\<close> of the pixel in row \<open>row\<close> and column \<open>col\<close> of a row-major buffer of
  \<open>b\<close> bytes per pixel and \<open>width\<close> pixels per row.
\<close>

definition pixel_index :: "nat \<Rightarrow> nat \<Rightarrow> nat \<Rightarrow> nat \<Rightarrow> nat \<Rightarrow> nat" where
  "pixel_index b width row col c = b * (width * row + col) + c"

definition channel_at :: "uint8_t list \<Rightarrow> nat \<Rightarrow> nat \<Rightarrow> nat \<Rightarrow> nat \<Rightarrow> nat \<Rightarrow> uint8_t" where
  "channel_at buf b width row col c = buf ! pixel_index b width row col c"

text \<open>
  The value that the box filter gives the channel \<open>c\<close> of the output pixel \<open>(h, w)\<close>: the
  average of line 136 over the child's pixels \<open>(2h, 2w)\<close>, \<open>(2h, 2w+1)\<close>, \<open>(2h+1, 2w)\<close>,
  \<open>(2h+1, 2w+1)\<close>.
\<close>

definition quadrant_value :: "uint8_t list \<Rightarrow> nat \<Rightarrow> nat \<Rightarrow> nat \<Rightarrow> nat \<Rightarrow> nat \<Rightarrow> uint8_t" where
  "quadrant_value input b width h w c =
     channel_avg (channel_at input b width (2 * h) (2 * w) c)
       (channel_at input b width (2 * h) (2 * w + 1) c)
       (channel_at input b width (2 * h + 1) (2 * w) c)
       (channel_at input b width (2 * h + 1) (2 * w + 1) c)"

text \<open>
  The order in which the three loops of \<^verbatim>\<open>readScaled\<close> visit the output channels, with
  \<open>n\<close> the bound of the two outer loops: \<open>before n b h w c h' w' c'\<close> says that
  \<open>(h', w', c')\<close> is visited before \<open>(h, w, c)\<close>. \<open>written\<close> is the loop invariant: the
  channels in \<open>P\<close> hold their box-filter value, every other byte is as in \<open>data\<close>.
\<close>

definition before :: "nat \<Rightarrow> nat \<Rightarrow> nat \<Rightarrow> nat \<Rightarrow> nat \<Rightarrow> nat \<Rightarrow> nat \<Rightarrow> nat \<Rightarrow> bool" where
  "before n b h w c h' w' c' \<longleftrightarrow>
     h' < n \<and> w' < n \<and> c' < b \<and> (h' < h \<or> (h' = h \<and> (w' < w \<or> (w' = w \<and> c' < c))))"

definition written ::
  "uint8_t list \<Rightarrow> uint8_t list \<Rightarrow> nat \<Rightarrow> nat \<Rightarrow> nat \<Rightarrow> nat \<Rightarrow> (nat \<Rightarrow> nat \<Rightarrow> nat \<Rightarrow> bool)
     \<Rightarrow> uint8_t list \<Rightarrow> bool" where
  "written input data b width offset_w offset_h P d \<longleftrightarrow>
     length d = length data
     \<and> (\<forall>h w c. P h w c \<longrightarrow>
           d ! pixel_index b width (offset_h + h) (offset_w + w) c = quadrant_value input b width h w c)
     \<and> (\<forall>k < length data.
           (\<forall>h w c. P h w c \<longrightarrow> k \<noteq> pixel_index b width (offset_h + h) (offset_w + w) c)
           \<longrightarrow> d ! k = data ! k)"

subsection \<open>The NBT buffer and \<^verbatim>\<open>DoubleTag\<close>\<close>

text \<open>
  \<^verbatim>\<open>DoubleTag.hpp\<close> uses the class \<^verbatim>\<open>Buffer\<close>, whose header is not among the sources.
  A buffer is a byte region with a cursor into it and the number of bytes that remain after
  the cursor.
\<close>

record Buffer =
  region :: "uint8_t list"
  cursor :: nat
  remaining :: nat

datatype buffer_error = buffer_underrun

text \<open>
  Modelled from the spec: \<^verbatim>\<open>Buffer::get\<close> (the header \<^verbatim>\<open>Buffer.hpp\<close> is missing). The
  spec: ``given a byte cursor, a fixed-size read of N bytes either succeeds and advances the
  cursor by N, or fails (cursor underrun)''. On success the result is the position of the
  bytes read (the pointer that the source returns) and the advanced buffer.
\<close>

definition get :: "Buffer \<Rightarrow> nat \<Rightarrow> buffer_error + nat \<times> Buffer" where
  "get buffer n =
     (if remaining buffer < n then Inl buffer_underrun
      else Inr (cursor buffer,
                buffer\<lparr>cursor := cursor buffer + n, remaining := remaining buffer - n\<rparr>))"

record DoubleTag =
  ptr :: nat

text \<open>
  The constructor \<^verbatim>\<open>DoubleTag(Buffer *buffer)\<close>, lines 43--45:
  \<^verbatim>\<open>ptr = buffer->get(8)\<close>. The buffer is updated through the pointer, so the model returns
  it with the tag; an exception of \<^verbatim>\<open>get\<close> leaves the constructor.
\<close>

definition new_DoubleTag :: "Buffer \<Rightarrow> buffer_error + DoubleTag \<times> Buffer" where
  "new_DoubleTag buffer =
     (case get buffer 8 of
        Inl err \<Rightarrow> Inl err
      | Inr (p, buffer') \<Rightarrow> Inr (\<lparr>ptr = p\<rparr>, buffer'))"

subsection \<open>Concrete inputs\<close>

text \<open>An environment in which every library call succeeds.\<close>

definition all_ok :: env where
  "all_ok = \<lparr>can_write = (\<lambda>filename. True), create_write_struct_ok = True,
     create_read_struct_ok = True, create_info_struct_ok = True, create_end_info_ok = True,
     write_png_ok = True\<rparr>"

text \<open>
  A grey-alpha tile of width 2 and height 4: the two upper rows hold 100 in every channel,
  the two lower rows 200.
\<close>

definition tile_2x4 :: png_image where
  "tile_2x4 = \<lparr>png_image_width = 2, png_image_height = 4, png_bit_depth = 8,
     png_color_type = PNG_COLOR_TYPE_GRAY_ALPHA,
     png_rows = [[100, 100, 100, 100], [100, 100, 100, 100],
                 [200, 200, 200, 200], [200, 200, 200, 200]]\<rparr>"

definition world_2x4 :: world where
  "world_2x4 = \<lparr>files = [''nw.png'' \<mapsto> png tile_2x4], open_files = []\<rparr>"

text \<open>A grey-alpha tile of width 2 and height 4 in which every channel of every pixel is 7.\<close>

definition uniform_2x4 :: png_image where
  "uniform_2x4 = \<lparr>png_image_width = 2, png_image_height = 4, png_bit_depth = 8,
     png_color_type = PNG_COLOR_TYPE_GRAY_ALPHA,
     png_rows = [[7, 7, 7, 7], [7, 7, 7, 7], [7, 7, 7, 7], [7, 7, 7, 7]]\<rparr>"

definition world_uniform_2x4 :: world where
  "world_uniform_2x4 = \<lparr>files = [''nw.png'' \<mapsto> png uniform_2x4], open_files = []\<rparr>"

text \<open>A grey-alpha tile of width 4 and height 2, every channel 1.\<close>

definition tile_4x2 :: png_image where
  "tile_4x2 = \<lparr>png_image_width = 4, png_image_height = 2, png_bit_depth = 8,
     png_color_type = PNG_COLOR_TYPE_GRAY_ALPHA,
     png_rows = [[1, 1, 1, 1, 1, 1, 1, 1], [1, 1, 1, 1, 1, 1, 1, 1]]\<rparr>"

definition world_4x2 :: world where
  "world_4x2 = \<lparr>files = [''nw.png'' \<mapsto> png tile_4x2], open_files = []\<rparr>"

text \<open>An environment in which \<^verbatim>\<open>png_create_read_struct\<close> returns a null pointer.\<close>

definition no_read_struct :: env where
  "no_read_struct = all_ok\<lparr>create_read_struct_ok := False\<rparr>"

subsection \<open>Facts about the channel arithmetic\<close>

lemma uint_uint8_bound: "uint (x :: uint8_t) \<le> 255"
  using uint_bounded [of x] by simp

lemma uint_channel_sum:
  "uint (channel_sum p q r s) = uint p + uint q + uint r + uint s"
proof -
  have b: "uint p \<le> 255" "uint q \<le> 255" "uint r \<le> 255" "uint s \<le> 255"
    by (rule uint_uint8_bound)+
  have n: "0 \<le> uint p" "0 \<le> uint q" "0 \<le> uint r" "0 \<le> uint s"
    by simp_all
  have 1: "(uint p + uint q) mod 4294967296 = uint p + uint q"
    using b n by (intro mod_pos_pos_trivial) linarith+
  have 2: "(uint p + uint q + uint r) mod 4294967296 = uint p + uint q + uint r"
    using b n by (intro mod_pos_pos_trivial) linarith+
  have 3: "(uint p + uint q + uint r + uint s) mod 4294967296
             = uint p + uint q + uint r + uint s"
    using b n by (intro mod_pos_pos_trivial) linarith+
  show ?thesis
    by (simp add: channel_sum_def promote_def uint_word_ariths uint_up_ucast is_up 1 2 3)
qed

lemma sint_channel_sum:
  "sint (channel_sum p q r s) = uint p + uint q + uint r + uint s"
proof -
  have b: "uint p \<le> 255" "uint q \<le> 255" "uint r \<le> 255" "uint s \<le> 255"
    by (rule uint_uint8_bound)+
  have "uint (channel_sum p q r s) < 2 ^ (LENGTH(32) - 1)"
    unfolding uint_channel_sum using b by simp
  moreover have "0 \<le> uint (channel_sum p q r s)"
    by simp
  ultimately have
    "signed_take_bit (LENGTH(32) - 1) (uint (channel_sum p q r s)) = uint (channel_sum p q r s)"
    by (intro signed_take_bit_int_eq_self) linarith+
  then show ?thesis
    by (simp add: sint_uint uint_channel_sum)
qed

lemma channel_quot_eq:
  "channel_quot p q r s = (uint p + uint q + uint r + uint s) div 4"
  by (simp add: channel_quot_def sint_channel_sum signed_divide_int_def sgn_if)

lemma uint_channel_avg: "uint (channel_avg p q r s) = (uint p + uint q + uint r + uint s) div 4"
proof -
  have b: "uint p \<le> 255" "uint q \<le> 255" "uint r \<le> 255" "uint s \<le> 255"
    by (rule uint_uint8_bound)+
  have n: "0 \<le> uint p" "0 \<le> uint q" "0 \<le> uint r" "0 \<le> uint s"
    by simp_all
  have "0 \<le> (uint p + uint q + uint r + uint s) div 4" using n by presburger
  moreover have "(uint p + uint q + uint r + uint s) div 4 < 2 ^ LENGTH(8)" using b by simp
  ultimately have "uint (word_of_int ((uint p + uint q + uint r + uint s) div 4) :: uint8_t) = (uint p + uint q + uint r + uint s) div 4"
    by (simp add: uint_word_of_int take_bit_int_eq_self)
  then show ?thesis by (simp add: channel_avg_def channel_quot_eq)
qed

text \<open>
  Claim C10. The sum of the four channel values in line 136 is exact: the 32-bit sum, read as a
  signed \<^verbatim>\<open>int\<close>, is the sum of the four values, at most 1020 and not negative (no
  wrap-around); the quotient by 4 lies between 0 and 255, and the byte stored in the
  destination channel has exactly the value of the quotient (nothing is cut off).
\<close>

theorem channel_sum_exact:
  "sint (channel_sum p q r s) = uint p + uint q + uint r + uint s
   \<and> sint (channel_sum p q r s) \<le> 1020
   \<and> 0 \<le> sint (channel_sum p q r s)
   \<and> 0 \<le> channel_quot p q r s
   \<and> channel_quot p q r s \<le> 255
   \<and> uint (channel_avg p q r s) = channel_quot p q r s"
proof -
  have b: "uint p \<le> 255" "uint q \<le> 255" "uint r \<le> 255" "uint s \<le> 255"
    by (rule uint_uint8_bound)+
  have n: "0 \<le> uint p" "0 \<le> uint q" "0 \<le> uint r" "0 \<le> uint s"
    by simp_all
  have "0 \<le> (uint p + uint q + uint r + uint s) div 4"
    using n by presburger
  moreover have "(uint p + uint q + uint r + uint s) div 4 \<le> 255"
    using b by presburger
  ultimately show ?thesis
    unfolding sint_channel_sum uint_channel_avg channel_quot_eq using b n by simp
qed

lemma channel_avg_uniform: "channel_avg v v v v = v"
proof -
  have "uint (channel_avg v v v v) = uint v"
    by (simp add: uint_channel_avg)
  then show ?thesis by (simp add: word_uint_eq_iff)
qed

subsection \<open>Indices of the raster layout\<close>

lemma pixel_index_less:
  assumes "row < height" "col < width" "c < b"
  shows "pixel_index b width row col c < b * width * height"
proof -
  have "width * row + col < width * row + width" using assms by simp
  also have "\<dots> = width * Suc row" by simp
  also have "\<dots> \<le> width * height" using assms by (intro mult_le_mono2) simp
  finally have k: "Suc (width * row + col) \<le> width * height" by simp
  have "b * (width * row + col) + c < b * (width * row + col) + b" using assms by simp
  also have "\<dots> = b * Suc (width * row + col)" by simp
  also have "\<dots> \<le> b * (width * height)" using k by (intro mult_le_mono2)
  finally show ?thesis by (simp add: pixel_index_def mult.assoc)
qed

lemma scale_channel_Inr:
  assumes "length input = b * width * height" "length data = b * width * height"
    and "h < height div 2" "w < width div 2" "c < b"
    and "offset_w \<le> width div 2" "offset_h \<le> height div 2"
  shows "scale_channel input b width offset_w offset_h h w c data =
    Inr (data[pixel_index b width (offset_h + h) (offset_w + w) c :=
      channel_avg (channel_at input b width (2 * h) (2 * w) c)
        (channel_at input b width (2 * h) (2 * w + 1) c)
        (channel_at input b width (2 * h + 1) (2 * w) c)
        (channel_at input b width (2 * h + 1) (2 * w + 1) c)])"
proof -
  define i where "i = 2 * b * (width * h + w) + c"
  define j where "j = b * (width * (offset_h + h) + offset_w + w) + c"
  have p: "pixel_index b width (2 * h) (2 * w) c = i"
    "pixel_index b width (2 * h) (2 * w + 1) c = i + b"
    "pixel_index b width (2 * h + 1) (2 * w) c = i + b * width"
    "pixel_index b width (2 * h + 1) (2 * w + 1) c = i + b * width + b"
    "pixel_index b width (offset_h + h) (offset_w + w) c = j"
    by (simp_all add: i_def j_def pixel_index_def algebra_simps)
  have r: "2 * h < height" "2 * h + 1 < height" "2 * w < width" "2 * w + 1 < width"
    "offset_h + h < height" "offset_w + w < width"
    using assms by linarith+
  have "pixel_index b width (2 * h) (2 * w) c < length input"
    "pixel_index b width (2 * h) (2 * w + 1) c < length input"
    "pixel_index b width (2 * h + 1) (2 * w) c < length input"
    "pixel_index b width (2 * h + 1) (2 * w + 1) c < length input"
    "pixel_index b width (offset_h + h) (offset_w + w) c < length data"
    using r assms(1,2,5) by (simp_all add: pixel_index_less)
  then have q: "i < length input" "i + b < length input" "i + b * width < length input"
    "i + b * width + b < length input" "j < length data"
    unfolding p by simp_all
  have "scale_channel input b width offset_w offset_h h w c data =
    Inr (data[j := channel_avg (input ! i) (input ! (i + b)) (input ! (i + b * width))
                     (input ! (i + b * width + b))])"
    unfolding scale_channel_def Let_def i_def [symmetric] j_def [symmetric]
    using q by (simp only: if_True simp_thms)
  then show ?thesis
    by (simp only: channel_at_def p)
qed

subsection \<open>The value stored by the loop body\<close>

text \<open>
  One execution of the loop body, taken alone. For a child buffer of \<open>b * width * height\<close>
  bytes, a coordinate \<open>(h, w)\<close> with \<open>h < height div 2\<close> and \<open>w < width div 2\<close>, and a
  channel \<open>c < b\<close> (the alpha channel is the last one), the assignment of line 136 stores at
  the quadrant's offset plus \<open>(h, w)\<close> the floor of the sum of the child's channel values at
  \<open>(2h, 2w)\<close>, \<open>(2h, 2w+1)\<close>, \<open>(2h+1, 2w)\<close>, \<open>(2h+1, 2w+1)\<close> divided by 4. The values
  0, 0, 0, 3 give 0, and four equal values \<open>v\<close> give \<open>v\<close>. This says nothing about which
  coordinates the loops of \<^verbatim>\<open>readScaled\<close> reach; see the sections on the loops below.
\<close>

theorem scale_channel_floor_average:
  assumes "length input = b * width * height" "length data = b * width * height"
    and "h < height div 2" "w < width div 2" "c < b"
    and "offset_w \<le> width div 2" "offset_h \<le> height div 2"
  shows "(\<exists>data'. scale_channel input b width offset_w offset_h h w c data = Inr data'
           \<and> uint (channel_at data' b width (offset_h + h) (offset_w + w) c) =
               (uint (channel_at input b width (2 * h) (2 * w) c)
                + uint (channel_at input b width (2 * h) (2 * w + 1) c)
                + uint (channel_at input b width (2 * h + 1) (2 * w) c)
                + uint (channel_at input b width (2 * h + 1) (2 * w + 1) c)) div 4)
         \<and> channel_avg 0 0 0 3 = 0
         \<and> channel_avg v v v v = v"
proof -
  have "offset_h + h < height" "offset_w + w < width"
    using assms by linarith+
  then have "pixel_index b width (offset_h + h) (offset_w + w) c < length data"
    using assms(2,5) by (simp add: pixel_index_less)
  then have "uint (channel_at (data[pixel_index b width (offset_h + h) (offset_w + w) c := x])
      b width (offset_h + h) (offset_w + w) c) = uint x" for x
    by (simp add: channel_at_def)
  moreover have "channel_avg 0 0 0 3 = 0"
    by (simp add: channel_avg_def channel_quot_def channel_sum_def promote_def)
  ultimately show ?thesis
    unfolding scale_channel_Inr [OF assms]
    by (simp add: uint_channel_avg channel_avg_uniform)
qed

theorem scale_channel_floor_average_witness:
  "(length [10, 0, 20, 0, 30, 0, 43, 3 :: uint8_t] = 2 * 2 * 2
    \<and> length (replicate 8 0 :: uint8_t list) = 2 * 2 * 2
    \<and> (0::nat) < 2 div 2 \<and> (0::nat) < 2 div 2 \<and> (0::nat) < 2
    \<and> (0::nat) \<le> 2 div 2 \<and> (0::nat) \<le> 2 div 2)
   \<and> (\<exists>data'. scale_channel [10, 0, 20, 0, 30, 0, 43, 3] 2 2 0 0 0 0 0 (replicate 8 0) = Inr data'
         \<and> uint (channel_at data' 2 2 0 0 0) = 25)"
proof -
  have h: "length [10, 0, 20, 0, 30, 0, 43, 3 :: uint8_t] = 2 * 2 * 2"
    "length (replicate 8 0 :: uint8_t list) = 2 * 2 * 2"
    "(0::nat) < 2 div 2" "(0::nat) < 2 div 2" "(0::nat) < 2"
    "(0::nat) \<le> 2 div 2" "(0::nat) \<le> 2 div 2"
    by simp_all
  have v: "(uint (channel_at [10, 0, 20, 0, 30, 0, 43, 3] 2 2 (2 * 0) (2 * 0) 0)
      + uint (channel_at [10, 0, 20, 0, 30, 0, 43, 3] 2 2 (2 * 0) (2 * 0 + 1) 0)
      + uint (channel_at [10, 0, 20, 0, 30, 0, 43, 3] 2 2 (2 * 0 + 1) (2 * 0) 0)
      + uint (channel_at [10, 0, 20, 0, 30, 0, 43, 3] 2 2 (2 * 0 + 1) (2 * 0 + 1) 0)) div 4 = 25"
    by (simp add: channel_at_def pixel_index_def)
  show ?thesis
    using scale_channel_floor_average [OF h, where v = 0] h unfolding v by simp
qed

subsection \<open>Validation in \<^verbatim>\<open>read\<close>\<close>

lemma fclose_fopen: "fclose (fopen w filename) filename = w"
  by (simp add: fclose_def fopen_def)

text \<open>
  Claim C5. When the file holds an image whose width, height, bit depth (which must be 8) or
  colour type differs from the request, \<^verbatim>\<open>read\<close> always ends in a
  \<^verbatim>\<open>std::runtime_error\<close> (the spec's FormatError) and never returns normally, whatever
  the library calls answer; the caller's buffer is left as it was, so nothing is rescaled,
  cut or converted into it. When the codec structures could be created, the error is the one
  of the validation (``unable to read PNG file'') and the file has been closed.
\<close>

theorem read_rejects_mismatch:
  assumes "files w filename = Some (png img)"
    and "png_image_width img \<noteq> width \<or> png_image_height img \<noteq> height
         \<or> png_bit_depth img \<noteq> 8
         \<or> png_color_type img \<noteq>
             (if colored then PNG_COLOR_TYPE_RGB_ALPHA else PNG_COLOR_TYPE_GRAY_ALPHA)"
  shows "(\<exists>msg w'. read e w filename data width height colored
                     = (Some (runtime_error msg), data, w'))
         \<and> (create_read_struct_ok e \<and> create_info_struct_ok e \<and> create_end_info_ok e
              \<longrightarrow> read e w filename data width height colored
                    = (Some (runtime_error ''unable to read PNG file''), data, w))"
  using assms by (simp add: read_def Let_def fclose_fopen)

theorem read_rejects_mismatch_witness:
  "files world_2x4 ''nw.png'' = Some (png tile_2x4)
   \<and> png_image_width tile_2x4 = 2
   \<and> create_read_struct_ok all_ok \<and> create_info_struct_ok all_ok \<and> create_end_info_ok all_ok
   \<and> read all_ok world_2x4 ''nw.png'' [7, 7] 4 4 False
       = (Some (runtime_error ''unable to read PNG file''), [7, 7], world_2x4)"
proof -
  have f: "files world_2x4 ''nw.png'' = Some (png tile_2x4)"
    by (simp add: world_2x4_def)
  have v: "png_image_width tile_2x4 = 2"
    by (simp add: tile_2x4_def)
  then have m: "png_image_width tile_2x4 \<noteq> 4 \<or> png_image_height tile_2x4 \<noteq> 4
        \<or> png_bit_depth tile_2x4 \<noteq> 8
        \<or> png_color_type tile_2x4 \<noteq>
             (if False then PNG_COLOR_TYPE_RGB_ALPHA else PNG_COLOR_TYPE_GRAY_ALPHA)"
    by simp
  have ok: "create_read_struct_ok all_ok \<and> create_info_struct_ok all_ok
              \<and> create_end_info_ok all_ok"
    by (simp add: all_ok_def)
  show ?thesis
    using read_rejects_mismatch [OF f m, of all_ok "[7, 7]"] f v ok by blast
qed

subsection \<open>Writing a buffer and reading it back\<close>

lemma copy_loop:
  assumes len: "length data = height * R"
    and rows: "length rows = height" "\<And>k. k < height \<Longrightarrow> rows ! k = take R (drop (k * R) data)"
  shows "i \<le> height \<Longrightarrow> length d = height * R \<Longrightarrow> take (i * R) d = take (i * R) data \<Longrightarrow>
    for_loop i height
      (\<lambda>k d. if k < length rows then memcpy d (k * R) (rows ! k) R else Inl out_of_bounds) d
    = Inr data"
proof (induction "height - i" arbitrary: i d)
  case 0
  then have "i = height" by simp
  with 0 len show ?case by (simp add: for_loop.simps)
next
  case (Suc n)
  then have lt: "i < height" by simp
  define d' where "d' = take (i * R) d @ take R (rows ! i) @ drop (i * R + R) d"
  have "Suc i * R \<le> height * R"
    using lt by (intro mult_le_mono1) simp
  then have b: "i * R + R \<le> height * R" by simp
  have row: "rows ! i = take R (drop (i * R) data)"
    using lt by (rule rows(2))
  have lrow: "length (rows ! i) = R"
    unfolding row using b len by simp
  have m: "memcpy d (i * R) (rows ! i) R = Inr d'"
    using b lrow Suc.prems(2) by (simp add: memcpy_def d'_def)
  have ld': "length d' = height * R"
    using b lrow Suc.prems(2) by (simp add: d'_def)
  have lA: "length (take (i * R) d) = i * R"
    using b Suc.prems(2) by simp
  have "d' = take (i * R) d @ rows ! i @ drop (i * R + R) d"
    using lrow by (simp add: d'_def)
  then have "take (i * R + R) d' = take (i * R) d @ rows ! i"
    using lA lrow by simp
  also have "\<dots> = take (i * R) data @ take R (drop (i * R) data)"
    by (simp only: row Suc.prems(3))
  also have "\<dots> = take (i * R + R) data"
    by (simp only: take_add)
  finally have "take (i * R + R) d' = take (i * R + R) data" .
  moreover have "Suc i * R = i * R + R"
    by simp
  ultimately have pre': "take (Suc i * R) d' = take (Suc i * R) data"
    by (simp only:)
  have "for_loop (Suc i) height
      (\<lambda>k d. if k < length rows then memcpy d (k * R) (rows ! k) R else Inl out_of_bounds) d'
    = Inr data"
    using Suc.hyps(2) lt by (intro Suc.hyps(1) ld' pre') simp_all
  then show ?case
    using lt m rows(1) by (subst for_loop.simps) simp
qed

lemma copy_rows_written:
  assumes "length data = (if colored then 4 else 2) * width * height"
    and "length buf = (if colored then 4 else 2) * width * height"
  shows "copy_rows
           (png_write_rows data (row_pointers width height colored)
              ((if colored then 4 else 2) * width))
           width height colored buf = Inr data"
proof -
  define B :: nat where "B = (if colored then 4 else 2)"
  define R where "R = B * width"
  define rows where "rows = png_write_rows data (row_pointers width height colored) R"
  have off: "B * k * width = k * R" for k
    by (simp add: R_def algebra_simps)
  have len: "length data = height * R" "length buf = height * R"
    using assms by (simp_all add: R_def B_def algebra_simps)
  have lrows: "length rows = height"
    by (simp add: rows_def png_write_rows_def row_pointers_def)
  have nth: "rows ! k = take R (drop (k * R) data)" if "k < height" for k
    using that by (simp add: rows_def png_write_rows_def row_pointers_def B_def [symmetric] off)
  have "for_loop 0 height
      (\<lambda>k d. if k < length rows then memcpy d (k * R) (rows ! k) R else Inl out_of_bounds) buf
    = Inr data"
    by (rule copy_loop [OF len(1) lrows nth]) (simp_all add: len)
  then show ?thesis
    unfolding copy_rows_def B_def [symmetric] off R_def [symmetric] rows_def [symmetric] .
qed

text \<open>
  Claim C6. For every buffer of \<open>bytesPerPixel * width * height\<close> bytes, when the file can
  be opened and the library calls succeed, \<^verbatim>\<open>write\<close> stores the buffer without an error,
  and \<^verbatim>\<open>read\<close> of that file with the same width, height and format into any destination
  buffer of that size returns normally with a buffer that is byte for byte the one written.
  libpng's encoding and decoding are taken to be lossless: the file holds the header and the
  rows handed to libpng.
\<close>

theorem write_read_roundtrip:
  assumes "can_write e filename" "create_write_struct_ok e" "create_info_struct_ok e"
    "write_png_ok e" "create_read_struct_ok e" "create_end_info_ok e"
    and "length data = (if colored then 4 else 2) * width * height"
    and "length buf = (if colored then 4 else 2) * width * height"
  shows "\<exists>w1. write_png e w filename data width height colored = (None, w1)
            \<and> read e w1 filename buf width height colored = (None, data, w1)"
proof -
  define img where "img = \<lparr>png_image_width = width, png_image_height = height, png_bit_depth = 8,
     png_color_type = (if colored then PNG_COLOR_TYPE_RGB_ALPHA else PNG_COLOR_TYPE_GRAY_ALPHA),
     png_rows = png_write_rows data (row_pointers width height colored)
                  ((if colored then 4 else 2) * width)\<rparr>"
  define w1 where "w1 = w\<lparr>files := (files w)(filename \<mapsto> png img)\<rparr>"
  have wr: "write_png e w filename data width height colored = (None, w1)"
    using assms(1-4,7) by (simp add: write_png_def Let_def fclose_def fopen_def w1_def img_def)
  have f: "files w1 filename = Some (png img)"
    by (simp add: w1_def)
  have c: "copy_rows (png_rows img) width height colored buf = Inr data"
    using copy_rows_written [OF assms(7,8)] by (simp add: img_def)
  have rd: "read e w1 filename buf width height colored = (None, data, w1)"
    using assms(3,5,6) by (simp add: read_def f Let_def c fclose_fopen) (simp add: img_def)
  show ?thesis using wr rd by blast
qed

theorem write_read_roundtrip_witness:
  "can_write all_ok ''t.png'' \<and> create_write_struct_ok all_ok \<and> create_info_struct_ok all_ok
   \<and> write_png_ok all_ok \<and> create_read_struct_ok all_ok \<and> create_end_info_ok all_ok
   \<and> length [1, 2, 3, 4, 5, 6, 7, 8 :: uint8_t] = (if False then 4 else 2) * 2 * 2
   \<and> length (replicate 8 0 :: uint8_t list) = (if False then 4 else 2) * 2 * 2
   \<and> (\<exists>w1. write_png all_ok world_2x4 ''t.png'' [1, 2, 3, 4, 5, 6, 7, 8] 2 2 False = (None, w1)
          \<and> read all_ok w1 ''t.png'' (replicate 8 0) 2 2 False = (None, [1, 2, 3, 4, 5, 6, 7, 8], w1))"
proof -
  have h: "can_write all_ok ''t.png''" "create_write_struct_ok all_ok"
    "create_info_struct_ok all_ok" "write_png_ok all_ok" "create_read_struct_ok all_ok"
    "create_end_info_ok all_ok"
    by (simp_all add: all_ok_def)
  have l: "length [1, 2, 3, 4, 5, 6, 7, 8 :: uint8_t] = (if False then 4 else 2) * 2 * 2"
    "length (replicate 8 0 :: uint8_t list) = (if False then 4 else 2) * 2 * 2"
    by simp_all
  show ?thesis
    using write_read_roundtrip [OF h l, of world_2x4] h l by blast
qed

subsection \<open>Composition without children\<close>

lemma row_of_zeros:
  assumes "i < height"
  shows "take (B * width) (drop (B * i * width) (replicate (B * width * height) (0::uint8_t)))
           = replicate (B * width) 0"
proof -
  have "B * i * width + B * width = B * width * Suc i" by (simp add: algebra_simps)
  also have "\<dots> \<le> B * width * height" using assms by (intro mult_le_mono2) simp
  finally have "B * width \<le> B * width * height - B * i * width" by simp
  then show ?thesis by (simp add: min_absorb2)
qed

lemma png_write_rows_zeros:
  "png_write_rows (replicate ((if colored then 4 else 2) * width * height) 0)
     (row_pointers width height colored) ((if colored then 4 else 2) * width)
   = replicate height (replicate ((if colored then 4 else 2) * width) 0)"
proof -
  have "map (\<lambda>i. take (B * width) (drop (B * i * width) (replicate (B * width * height) (0::uint8_t))))
          [0..<height] = map (\<lambda>i. replicate (B * width) 0) [0..<height]" for B
  proof (rule map_cong [OF refl])
    fix i assume "i \<in> set [0..<height]"
    then have "i < height" by simp
    then show "take (B * width) (drop (B * i * width) (replicate (B * width * height) (0::uint8_t)))
                 = replicate (B * width) 0"
      by (rule row_of_zeros)
  qed
  then show ?thesis
    by (simp add: png_write_rows_def row_pointers_def comp_def map_replicate_const)
qed

text \<open>
  Claim C4. A downsample pass with an absent child path returns at once: the parent buffer
  and the world are unchanged. With all four children absent, and the output file writable
  and libpng working, \<^verbatim>\<open>mipmap\<close> ends without an error and the output file holds an
  image of the requested width, height and format in which every channel of every pixel is
  zero; no file stays open. This holds for every width and height (even or not).
\<close>

theorem mipmap_all_absent:
  assumes "can_write e output" "create_write_struct_ok e" "create_info_struct_ok e"
    "write_png_ok e"
  shows "readScaled e w data offset_w offset_h None width height colored = (None, data, w)
    \<and> (\<exists>w'. mipmap e w output width height colored None None None None = (None, w')
          \<and> files w' output = Some (png \<lparr>png_image_width = width, png_image_height = height,
                png_bit_depth = 8,
                png_color_type =
                  (if colored then PNG_COLOR_TYPE_RGB_ALPHA else PNG_COLOR_TYPE_GRAY_ALPHA),
                png_rows = replicate height
                  (replicate ((if colored then 4 else 2) * width) 0)\<rparr>)
          \<and> open_files w' = open_files w)"
proof -
  have 1: "readScaled e w d ow oh None width height colored = (None, d, w)" for d ow oh w
    by (simp add: readScaled_def)
  show ?thesis
    unfolding mipmap_def Let_def 1
    using assms png_write_rows_zeros [of colored width height]
    by (simp add: write_png_def Let_def fclose_def fopen_def)
qed

theorem mipmap_all_absent_witness:
  "can_write all_ok ''out.png'' \<and> create_write_struct_ok all_ok \<and> create_info_struct_ok all_ok
   \<and> write_png_ok all_ok
   \<and> fst (mipmap all_ok world_2x4 ''out.png'' 2 2 False None None None None) = None
   \<and> files (snd (mipmap all_ok world_2x4 ''out.png'' 2 2 False None None None None)) ''out.png''
       = Some (png \<lparr>png_image_width = 2, png_image_height = 2, png_bit_depth = 8,
                png_color_type = PNG_COLOR_TYPE_GRAY_ALPHA,
                png_rows = [[0, 0, 0, 0], [0, 0, 0, 0]]\<rparr>)"
proof -
  have h: "can_write all_ok ''out.png''" "create_write_struct_ok all_ok"
    "create_info_struct_ok all_ok" "write_png_ok all_ok"
    by (simp_all add: all_ok_def)
  have r: "replicate 2 (replicate ((if False then 4 else 2) * 2) (0::uint8_t))
             = [[0, 0, 0, 0], [0, 0, 0, 0]]"
    by (simp add: numeral_eq_Suc)
  show ?thesis
    using mipmap_all_absent [OF h, of world_2x4 "[]" 0 0 2 2 False] h
    unfolding r by auto
qed

subsection \<open>\<^verbatim>\<open>DoubleTag\<close>\<close>

text \<open>
  Claim C8. Constructing a \<^verbatim>\<open>DoubleTag\<close> is one read of 8 bytes: with fewer than 8 bytes
  remaining it fails with a buffer underrun; otherwise it succeeds, the tag points to the old
  cursor position, the cursor has advanced by exactly 8, the bytes remaining have decreased
  by exactly 8, and the byte region is unchanged.
\<close>

theorem new_DoubleTag_reads_8:
  "(remaining buffer < 8 \<and> new_DoubleTag buffer = Inl buffer_underrun)
   \<or> (8 \<le> remaining buffer
       \<and> (\<exists>tag buffer'. new_DoubleTag buffer = Inr (tag, buffer')
             \<and> ptr tag = cursor buffer
             \<and> cursor buffer' = cursor buffer + 8
             \<and> remaining buffer' = remaining buffer - 8
             \<and> region buffer' = region buffer))"
  by (cases "remaining buffer < 8") (simp_all add: new_DoubleTag_def get_def)

theorem new_DoubleTag_reads_8_witness:
  "(\<exists>tag buffer'. new_DoubleTag \<lparr>region = replicate 10 0, cursor = 0, remaining = 10\<rparr>
                      = Inr (tag, buffer')
        \<and> ptr tag = 0 \<and> cursor buffer' = 8 \<and> remaining buffer' = 2)
   \<and> new_DoubleTag \<lparr>region = replicate 10 0, cursor = 7, remaining = 3\<rparr> = Inl buffer_underrun"
  using new_DoubleTag_reads_8 [of "\<lparr>region = replicate 10 0, cursor = 0, remaining = 10\<rparr>"]
    new_DoubleTag_reads_8 [of "\<lparr>region = replicate 10 0, cursor = 7, remaining = 3\<rparr>"]
  by auto

subsection \<open>The loops of \<^verbatim>\<open>readScaled\<close> when \<open>width div 2 \<le> height div 2\<close>\<close>

text \<open>
  When the bound \<^verbatim>\<open>width/2\<close> of the outer loop does not exceed \<^verbatim>\<open>height/2\<close> (on
  square tiles the two are equal), every access is within bounds, the loops write the
  box-filter value to the channels of the output rows \<open>h < width div 2\<close> of the quadrant,
  and they change no other byte of the parent buffer.
\<close>

lemma for_loop_rule:
  assumes step: "\<And>k t. i \<le> k \<Longrightarrow> k < n \<Longrightarrow> I k t \<Longrightarrow> \<exists>t'. body k t = Inr t' \<and> I (Suc k) t'"
  shows "i \<le> n \<Longrightarrow> I i s \<Longrightarrow> \<exists>t. for_loop i n body s = Inr t \<and> I n t"
  using step
proof (induction "n - i" arbitrary: i s)
  case 0
  then have "i = n" by simp
  with 0 show ?case by (simp add: for_loop.simps)
next
  case (Suc m)
  then have lt: "i < n" by simp
  from Suc.prems(3) [OF le_refl lt Suc.prems(2)]
  obtain t' where b: "body i s = Inr t'" and I': "I (Suc i) t'" by blast
  have "\<exists>t. for_loop (Suc i) n body t' = Inr t \<and> I n t"
  proof (rule Suc.hyps(1))
    show "m = n - Suc i" using Suc.hyps(2) by simp
    show "Suc i \<le> n" using lt by simp
    show "I (Suc i) t'" by (rule I')
    show "\<exists>t'. body k t = Inr t' \<and> I (Suc k) t'" if "Suc i \<le> k" "k < n" "I k t" for k t
      using that by (intro Suc.prems(3)) simp_all
  qed
  then show ?case
    using lt b by (subst for_loop.simps) simp
qed

lemma div_mod_unique:
  assumes "c < b" "c' < b" "b * k + c = b * k' + (c'::nat)"
  shows "k = k' \<and> c = c'"
proof -
  have "(b * k + c) div b = k" "(b * k' + c') div b = k'"
    using assms(1,2) by simp_all
  then have "k = k'" using assms(3) by simp
  then show ?thesis using assms(3) by simp
qed

lemma pixel_index_inj:
  assumes "c < b" "c' < b" "col < width" "col' < width"
    and "pixel_index b width row col c = pixel_index b width row' col' c'"
  shows "row = row' \<and> col = col' \<and> c = c'"
proof -
  have 1: "width * row + col = width * row' + col' \<and> c = c'"
    using assms(1,2,5) unfolding pixel_index_def by (rule div_mod_unique)
  then have e: "width * row + col = width * row' + col'" ..
  have "row = row' \<and> col = col'"
    using assms(3,4) e by (rule div_mod_unique)
  with 1 show ?thesis by simp
qed

lemma before_Suc:
  assumes "h < n" "w < n" "c < b"
  shows "before n b h w (Suc c) h' w' c' \<longleftrightarrow> before n b h w c h' w' c' \<or> (h' = h \<and> w' = w \<and> c' = c)"
  using assms by (auto simp: before_def)

lemma before_row_end: "before n b h w b = before n b h (Suc w) 0"
  by (intro ext) (auto simp: before_def)

lemma before_col_end: "before n b h n 0 = before n b (Suc h) 0 0"
  by (intro ext) (auto simp: before_def)

lemma before_start: "\<not> before n b 0 0 0 h' w' c'"
  by (simp add: before_def)

lemma before_end: "before n b n 0 0 h' w' c' \<longleftrightarrow> h' < n \<and> w' < n \<and> c' < b"
  by (auto simp: before_def)

lemma scale_channel_step:
  assumes len: "length input = b * width * height" "length data = b * width * height"
    and n: "width div 2 \<le> height div 2"
    and off: "offset_w \<le> width div 2" "offset_h \<le> height div 2"
    and pos: "h < width div 2" "w < width div 2" "c < b"
    and inv: "written input data b width offset_w offset_h (before (width div 2) b h w c) d"
  shows "\<exists>d'. scale_channel input b width offset_w offset_h h w c d = Inr d'
           \<and> written input data b width offset_w offset_h (before (width div 2) b h w (Suc c)) d'"
proof -
  let ?idx = "\<lambda>h w c. pixel_index b width (offset_h + h) (offset_w + w) c"
  let ?d' = "d[?idx h w c := quadrant_value input b width h w c]"
  have ld: "length d = b * width * height"
    using inv len by (simp add: written_def)
  have hh: "h < height div 2" using pos n by simp
  have sc: "scale_channel input b width offset_w offset_h h w c d = Inr ?d'"
    unfolding quadrant_value_def
    by (rule scale_channel_Inr [OF len(1) ld hh pos(2,3) off])
  have "offset_h + h < height" "offset_w + w < width"
    using hh pos off by linarith+
  then have il: "?idx h w c < length d"
    using pos(3) ld by (simp add: pixel_index_less)
  have ne: "?idx h' w' c' \<noteq> ?idx h w c"
    if "before (width div 2) b h w c h' w' c'" for h' w' c'
  proof
    assume e: "?idx h' w' c' = ?idx h w c"
    have "w' < width div 2" "c' < b" using that by (simp_all add: before_def)
    then have "offset_w + w' < width" "offset_w + w < width" using off pos by linarith+
    from pixel_index_inj [OF \<open>c' < b\<close> pos(3) this e]
    have "h' = h \<and> w' = w \<and> c' = c" by simp
    with that show False by (simp add: before_def)
  qed
  have "written input data b width offset_w offset_h (before (width div 2) b h w (Suc c)) ?d'"
    unfolding written_def
  proof (intro conjI allI impI)
    show "length ?d' = length data" using inv by (simp add: written_def)
  next
    fix h' w' c' assume "before (width div 2) b h w (Suc c) h' w' c'"
    then consider "before (width div 2) b h w c h' w' c'" | "h' = h \<and> w' = w \<and> c' = c"
      using before_Suc [OF pos] by blast
    then show "?d' ! ?idx h' w' c' = quadrant_value input b width h' w' c'"
    proof cases
      case 1
      then have "?d' ! ?idx h' w' c' = d ! ?idx h' w' c'"
        using ne [OF 1] by simp
      then show ?thesis using inv 1 by (simp add: written_def)
    next
      case 2
      then show ?thesis using il by simp
    qed
  next
    fix k assume k: "k < length data"
      and nk: "\<forall>h' w' c'. before (width div 2) b h w (Suc c) h' w' c' \<longrightarrow> k \<noteq> ?idx h' w' c'"
    have "k \<noteq> ?idx h w c"
      using nk before_Suc [OF pos, of h w c] by blast
    then have "?d' ! k = d ! k" by simp
    moreover have "\<forall>h' w' c'. before (width div 2) b h w c h' w' c' \<longrightarrow> k \<noteq> ?idx h' w' c'"
      using nk before_Suc [OF pos] by blast
    ultimately show "?d' ! k = data ! k"
      using inv k by (simp add: written_def)
  qed
  with sc show ?thesis by blast
qed

lemma scale_loops_correct:
  assumes len: "length input = b * width * height" "length data = b * width * height"
    and n: "width div 2 \<le> height div 2"
    and off: "offset_w \<le> width div 2" "offset_h \<le> height div 2"
  shows "\<exists>data'. scale_loops input b width offset_w offset_h data = Inr data'
     \<and> length data' = length data
     \<and> (\<forall>h w c. h < width div 2 \<and> w < width div 2 \<and> c < b \<longrightarrow>
           channel_at data' b width (offset_h + h) (offset_w + w) c
             = quadrant_value input b width h w c)
     \<and> (\<forall>k < length data.
           (\<forall>h w c. h < width div 2 \<and> w < width div 2 \<and> c < b \<longrightarrow>
               k \<noteq> pixel_index b width (offset_h + h) (offset_w + w) c)
           \<longrightarrow> data' ! k = data ! k)"
proof -
  let ?n = "width div 2"
  let ?W = "written input data b width offset_w offset_h"
  have chan: "\<exists>d'. for_loop 0 b (\<lambda>c. scale_channel input b width offset_w offset_h h w c) d = Inr d'
                  \<and> ?W (before ?n b h (Suc w) 0) d'"
    if "h < ?n" "w < ?n" "?W (before ?n b h w 0) d" for h w d
  proof -
    have "\<exists>d'. for_loop 0 b (\<lambda>c. scale_channel input b width offset_w offset_h h w c) d = Inr d'
                  \<and> ?W (before ?n b h w b) d'"
      by (rule for_loop_rule [where I = "\<lambda>c. ?W (before ?n b h w c)"])
         (use that in \<open>simp_all add: scale_channel_step [OF len n off]\<close>)
    then show ?thesis by (simp only: before_row_end)
  qed
  have row: "\<exists>d'. for_loop 0 ?n (\<lambda>w. for_loop 0 b
                    (\<lambda>c. scale_channel input b width offset_w offset_h h w c)) d = Inr d'
                  \<and> ?W (before ?n b (Suc h) 0 0) d'"
    if "h < ?n" "?W (before ?n b h 0 0) d" for h d
  proof -
    have "\<exists>d'. for_loop 0 ?n (\<lambda>w. for_loop 0 b
                    (\<lambda>c. scale_channel input b width offset_w offset_h h w c)) d = Inr d'
                  \<and> ?W (before ?n b h ?n 0) d'"
      by (rule for_loop_rule [where I = "\<lambda>w. ?W (before ?n b h w 0)"])
         (use that in \<open>simp_all add: chan\<close>)
    then show ?thesis by (simp only: before_col_end)
  qed
  have start: "?W (before ?n b 0 0 0) data"
    by (simp add: written_def before_start)
  have "\<exists>d'. scale_loops input b width offset_w offset_h data = Inr d' \<and> ?W (before ?n b ?n 0 0) d'"
    unfolding scale_loops_def
    by (rule for_loop_rule [where I = "\<lambda>h. ?W (before ?n b h 0 0)"])
       (use start in \<open>simp_all add: row\<close>)
  then show ?thesis
    by (simp add: written_def before_end channel_at_def)
qed


lemma concat_uniform:
  assumes "\<forall>r \<in> set rows. length r = R"
  shows "length (concat rows) = length rows * R"
    and "k < length rows \<Longrightarrow> take R (drop (k * R) (concat rows)) = rows ! k"
  using assms
proof (induction rows arbitrary: k)
  case Nil
  { case 1 show ?case by simp }
  { case 2 then show ?case by simp }
next
  case (Cons r rows)
  { case 1
    then have "length (concat rows) = length rows * R" by (intro Cons.IH(1)) simp
    with 1 show ?case by simp }
  { case 2
    have lr: "length r = R" using 2(2) by simp
    show ?case
    proof (cases k)
      case 0
      then show ?thesis using lr by simp
    next
      case (Suc j)
      then have "j < length rows" using 2(1) by simp
      then have "take R (drop (j * R) (concat rows)) = rows ! j"
        using 2(2) by (intro Cons.IH(2)) simp_all
      then show ?thesis using Suc lr by simp
    qed }
qed

lemma copy_rows_concat:
  assumes "length rows = height"
    and "\<forall>r \<in> set rows. length r = (if colored then 4 else 2) * width"
    and "length buf = (if colored then 4 else 2) * width * height"
  shows "copy_rows rows width height colored buf = Inr (concat rows)"
proof -
  define B :: nat where "B = (if colored then 4 else 2)"
  define R where "R = B * width"
  have u: "\<forall>r \<in> set rows. length r = R"
    using assms(2) by (simp add: R_def B_def)
  have off: "B * k * width = k * R" for k
    by (simp add: R_def algebra_simps)
  have len: "length (concat rows) = height * R"
    using concat_uniform(1) [OF u] assms(1) by simp
  have lbuf: "length buf = height * R"
    using assms(3) by (simp add: R_def B_def algebra_simps)
  have nth: "rows ! k = take R (drop (k * R) (concat rows))" if "k < height" for k
    using concat_uniform(2) [OF u, of k] that assms(1) by simp
  have "for_loop 0 height
      (\<lambda>k d. if k < length rows then memcpy d (k * R) (rows ! k) R else Inl out_of_bounds) buf
    = Inr (concat rows)"
    by (rule copy_loop [OF len assms(1) nth]) (simp_all add: lbuf)
  then show ?thesis
    unfolding copy_rows_def B_def [symmetric] off R_def [symmetric] .
qed

lemma read_well_formed:
  assumes "files w filename = Some (png img)"
    and "png_image_width img = width" "png_image_height img = height" "png_bit_depth img = 8"
      "png_color_type img =
         (if colored then PNG_COLOR_TYPE_RGB_ALPHA else PNG_COLOR_TYPE_GRAY_ALPHA)"
    and "length (png_rows img) = height"
      "\<forall>r \<in> set (png_rows img). length r = (if colored then 4 else 2) * width"
    and "create_read_struct_ok e" "create_info_struct_ok e" "create_end_info_ok e"
    and "length buf = (if colored then 4 else 2) * width * height"
  shows "read e w filename buf width height colored = (None, concat (png_rows img), w)"
  using assms(1-5,8-10) copy_rows_concat [OF assms(6,7,11)]
  by (simp add: read_def Let_def fclose_fopen)

lemma readScaled_rows_below_width:
  assumes fl: "files w filename = Some (png img)"
    and hdr: "png_image_width img = width" "png_image_height img = height"
      "png_bit_depth img = 8"
      "png_color_type img =
         (if colored then PNG_COLOR_TYPE_RGB_ALPHA else PNG_COLOR_TYPE_GRAY_ALPHA)"
    and wf: "length (png_rows img) = height"
      "\<forall>r \<in> set (png_rows img). length r = (if colored then 4 else 2) * width"
    and env: "create_read_struct_ok e" "create_info_struct_ok e" "create_end_info_ok e"
    and len: "length data = (if colored then 4 else 2) * width * height"
    and n: "width div 2 \<le> height div 2"
    and off: "offset_w \<le> width div 2" "offset_h \<le> height div 2"
  shows "\<exists>data'. readScaled e w data offset_w offset_h (Some filename) width height colored
                  = (None, data', w)
     \<and> length data' = length data
     \<and> (\<forall>h x c. h < width div 2 \<and> x < width div 2 \<and> c < (if colored then 4 else 2) \<longrightarrow>
           channel_at data' (if colored then 4 else 2) width (offset_h + h) (offset_w + x) c
             = quadrant_value (concat (png_rows img)) (if colored then 4 else 2) width h x c)
     \<and> (\<forall>k < length data.
           (\<forall>h x c. h < width div 2 \<and> x < width div 2 \<and> c < (if colored then 4 else 2) \<longrightarrow>
               k \<noteq> pixel_index (if colored then 4 else 2) width (offset_h + h) (offset_w + x) c)
           \<longrightarrow> data' ! k = data ! k)"
proof -
  define b :: nat where "b = (if colored then 4 else 2)"
  have rd: "read e w filename (replicate (b * width * height) 0) width height colored
              = (None, concat (png_rows img), w)"
    by (rule read_well_formed [OF fl hdr wf env]) (simp add: b_def)
  have li: "length (concat (png_rows img)) = b * width * height"
    using concat_uniform(1) [OF wf(2)] wf(1) by (simp add: b_def algebra_simps)
  from scale_loops_correct [OF li len [folded b_def] n off]
  obtain data' where sl: "scale_loops (concat (png_rows img)) b width offset_w offset_h data = Inr data'"
    and p: "length data' = length data"
      "\<forall>h x c. h < width div 2 \<and> x < width div 2 \<and> c < b \<longrightarrow>
           channel_at data' b width (offset_h + h) (offset_w + x) c
             = quadrant_value (concat (png_rows img)) b width h x c"
      "\<forall>k < length data.
           (\<forall>h x c. h < width div 2 \<and> x < width div 2 \<and> c < b \<longrightarrow>
               k \<noteq> pixel_index b width (offset_h + h) (offset_w + x) c)
           \<longrightarrow> data' ! k = data ! k"
    by blast
  have "readScaled e w data offset_w offset_h (Some filename) width height colored = (None, data', w)"
    by (simp add: readScaled_def Let_def b_def [symmetric] rd sl)
  with p show ?thesis unfolding b_def by blast
qed

subsection \<open>The loop bound of \<^verbatim>\<open>readScaled\<close> on tiles that are not square\<close>

text \<open>
  The outer loop of \<^verbatim>\<open>readScaled\<close> (line 132) runs \<open>h\<close> up to \<^verbatim>\<open>width/2\<close>, not
  \<^verbatim>\<open>height/2\<close>, while the buffers are allocated for \<open>height\<close> rows and \<^verbatim>\<open>mipmap\<close>
  places the southern quadrants at row \<^verbatim>\<open>height/2\<close>. The following evaluations run the
  code on a tile that is higher than wide and on one that is wider than high.
\<close>

text \<open>
  Claim C1 (the code differs). The claim: with a present child and even width and height, the
  averaged pixel is written for every \<open>(h, w)\<close> with \<open>h < height div 2\<close> and
  \<open>w < width div 2\<close>. On the tile of width 2 and height 4, \<^verbatim>\<open>readScaled\<close> returns
  normally and has written only the output row 0: the pixel at \<open>(h, w) = (1, 0)\<close>, which is
  in range, still holds 0, while the average of its four source values is 200.
\<close>

theorem readScaled_2x4_leaves_row_unwritten:
  "fst (readScaled all_ok world_2x4 (replicate 16 0) 0 0 (Some ''nw.png'') 2 4 False) = None
   \<and> fst (snd (readScaled all_ok world_2x4 (replicate 16 0) 0 0 (Some ''nw.png'') 2 4 False))
       = [100, 100, 0, 0, 0, 0, 0, 0, 0, 0, 0, 0, 0, 0, 0, 0]
   \<and> channel_at (fst (snd (readScaled all_ok world_2x4 (replicate 16 0) 0 0
                              (Some ''nw.png'') 2 4 False))) 2 2 1 0 0 = 0
   \<and> channel_avg (channel_at (concat (png_rows tile_2x4)) 2 2 2 0 0)
        (channel_at (concat (png_rows tile_2x4)) 2 2 2 1 0)
        (channel_at (concat (png_rows tile_2x4)) 2 2 3 0 0)
        (channel_at (concat (png_rows tile_2x4)) 2 2 3 1 0) = 200"
  by code_simp

text \<open>
  Claim C2 (the code differs). The claim: for every decoded child buffer, every output
  coordinate \<open>(h, w)\<close> in range and every channel, the downsampled value is the floor of the
  sum of the four child values divided by 4, and a block of four equal values \<open>v\<close> yields
  \<open>v\<close>. On the tile of width 2 and height 4 whose channels are all 7, \<^verbatim>\<open>readScaled\<close>
  returns normally; the output pixel \<open>(0, 0)\<close> holds 7 in both channels, but the output
  pixel \<open>(1, 0)\<close>, which is in range (\<open>1 < 4 div 2\<close> and \<open>0 < 2 div 2\<close>), holds 0 in the
  luminance and in the alpha channel, while the floor of the sum of its four source values
  divided by 4 is 7 in both.
\<close>

theorem readScaled_2x4_uniform_value_missing:
  "fst (readScaled all_ok world_uniform_2x4 (replicate 16 0) 0 0 (Some ''nw.png'') 2 4 False)
     = None
   \<and> fst (snd (readScaled all_ok world_uniform_2x4 (replicate 16 0) 0 0
                   (Some ''nw.png'') 2 4 False))
       = [7, 7, 0, 0, 0, 0, 0, 0, 0, 0, 0, 0, 0, 0, 0, 0]
   \<and> (1::nat) < 4 div 2 \<and> (0::nat) < 2 div 2
   \<and> channel_at (fst (snd (readScaled all_ok world_uniform_2x4 (replicate 16 0) 0 0
                              (Some ''nw.png'') 2 4 False))) 2 2 1 0 0 = 0
   \<and> (uint (channel_at (concat (png_rows uniform_2x4)) 2 2 2 0 0)
        + uint (channel_at (concat (png_rows uniform_2x4)) 2 2 2 1 0)
        + uint (channel_at (concat (png_rows uniform_2x4)) 2 2 3 0 0)
        + uint (channel_at (concat (png_rows uniform_2x4)) 2 2 3 1 0)) div 4 = 7
   \<and> channel_at (fst (snd (readScaled all_ok world_uniform_2x4 (replicate 16 0) 0 0
                              (Some ''nw.png'') 2 4 False))) 2 2 1 0 1 = 0
   \<and> (uint (channel_at (concat (png_rows uniform_2x4)) 2 2 2 0 1)
        + uint (channel_at (concat (png_rows uniform_2x4)) 2 2 2 1 1)
        + uint (channel_at (concat (png_rows uniform_2x4)) 2 2 3 0 1)
        + uint (channel_at (concat (png_rows uniform_2x4)) 2 2 3 1 1)) div 4 = 7"
  by code_simp

text \<open>
  Claim C3 (the code differs). The claim: with one child present, the populated quadrant equals
  the box-filtered downsample of that child. For width 2 and height 4 and only the north-west
  child present, \<^verbatim>\<open>mipmap\<close> succeeds and writes a tile whose north-west quadrant (rows 0
  and 1 of column 0) holds 100 in row 0 but 0 in row 1, where the downsample of the child has
  200.
\<close>

theorem mipmap_2x4_quadrant_incomplete:
  "fst (mipmap all_ok world_2x4 ''out.png'' 2 4 False (Some ''nw.png'') None None None) = None
   \<and> files (snd (mipmap all_ok world_2x4 ''out.png'' 2 4 False (Some ''nw.png'') None None None))
        ''out.png''
       = Some (png \<lparr>png_image_width = 2, png_image_height = 4, png_bit_depth = 8,
                png_color_type = PNG_COLOR_TYPE_GRAY_ALPHA,
                png_rows = [[100, 100, 0, 0], [0, 0, 0, 0], [0, 0, 0, 0], [0, 0, 0, 0]]\<rparr>)
   \<and> channel_avg (channel_at (concat (png_rows tile_2x4)) 2 2 2 0 0)
        (channel_at (concat (png_rows tile_2x4)) 2 2 2 1 0)
        (channel_at (concat (png_rows tile_2x4)) 2 2 3 0 0)
        (channel_at (concat (png_rows tile_2x4)) 2 2 3 1 0) = 200"
  by code_simp

text \<open>
  Claim C9 (the code differs). The claim: for even width and height every read of the child
  buffer and every write to the parent buffer is within bounds. For width 4 and height 2 the
  child is decoded into its buffer of 16 bytes, and the loop then reaches \<open>h = 1\<close>, where
  the first read is at index \<open>2 * 2 * (4 * 1 + 0) + 0 = 16\<close>, one past the end of that
  buffer.
\<close>

theorem readScaled_4x2_out_of_bounds:
  "fst (readScaled all_ok world_4x2 (replicate 16 0) 0 0 (Some ''nw.png'') 4 2 False)
     = Some out_of_bounds
   \<and> fst (read all_ok world_4x2 ''nw.png'' (replicate 16 0) 4 2 False) = None
   \<and> length (fst (snd (read all_ok world_4x2 ''nw.png'' (replicate 16 0) 4 2 False))) = 16
   \<and> scale_channel (fst (snd (read all_ok world_4x2 ''nw.png'' (replicate 16 0) 4 2 False)))
        2 4 0 0 1 0 0 (replicate 16 0) = Inl out_of_bounds
   \<and> 2 * 2 * (4 * 1 + 0) + 0 = (16::nat)"
  by code_simp

theorem readScaled_4x2_out_of_bounds_witness:
  "scale_channel (fst (snd (read all_ok world_4x2 ''nw.png'' (replicate 16 0) 4 2 False)))
     2 4 0 0 1 0 0 (replicate 16 0) = Inl out_of_bounds"
  using readScaled_4x2_out_of_bounds by (rule conjunct2 [THEN conjunct2, THEN conjunct2, THEN conjunct1])

subsection \<open>File handles on the early error paths\<close>

text \<open>
  When the codec structures can be created, both functions close the file on every path,
  the error paths included. When one of them cannot be created, the file stays open.
\<close>

lemma for_loop_error:
  "for_loop i n body s = Inl x \<Longrightarrow> (\<And>k t y. body k t = Inl y \<Longrightarrow> y = out_of_bounds)
     \<Longrightarrow> x = out_of_bounds"
proof (induction i n body s rule: for_loop.induct)
  case (1 i n body s)
  from "1.prems"(1) have lt: "i < n"
    by (subst (asm) for_loop.simps) (simp split: if_splits)
  show ?case
  proof (cases "body i s")
    case (Inl y)
    then have "x = y"
      using "1.prems"(1) lt by (subst (asm) for_loop.simps) simp
    then show ?thesis
      using "1.prems"(2) [OF Inl] by simp
  next
    case (Inr t)
    then have "for_loop (Suc i) n body t = Inl x"
      using "1.prems"(1) lt by (subst (asm) for_loop.simps) simp
    then show ?thesis
      using lt Inr "1.prems"(2) by (intro "1.IH") simp_all
  qed
qed

lemma copy_rows_error:
  "copy_rows rows width height colored data = Inl x \<Longrightarrow> x = out_of_bounds"
  unfolding copy_rows_def
  by (erule for_loop_error) (auto simp: memcpy_def split: if_splits)

lemma read_closes_file:
  assumes "create_read_struct_ok e" "create_info_struct_ok e" "create_end_info_ok e"
    and "read e w filename data width height colored = (r, data', w')"
    and "r \<noteq> Some out_of_bounds"
  shows "w' = w"
  using assms
  by (auto simp: read_def Let_def fclose_fopen dest: copy_rows_error
        split: option.splits file_content.splits if_splits sum.splits)

lemma read_early_throw_leaves_open:
  assumes "files w filename = Some content"
    and "\<not> create_read_struct_ok e \<or> \<not> create_info_struct_ok e \<or> \<not> create_end_info_ok e"
  shows "open_files (snd (snd (read e w filename data width height colored)))
           = filename # open_files w"
  using assms by (auto simp: read_def Let_def fopen_def)

lemma write_png_closes_file:
  assumes "create_write_struct_ok e" "create_info_struct_ok e"
    and "write_png e w filename data width height colored = (r, w')"
    and "r \<noteq> Some out_of_bounds"
  shows "open_files w' = open_files w"
  using assms
  by (auto simp: write_png_def Let_def fclose_def fopen_def split: if_splits)

lemma write_png_early_throw_leaves_open:
  assumes "can_write e filename"
    and "\<not> create_write_struct_ok e \<or> \<not> create_info_struct_ok e"
  shows "open_files (snd (write_png e w filename data width height colored))
           = filename # open_files w"
  using assms by (auto simp: write_png_def Let_def fopen_def)

text \<open>
  Claim C7 (the code differs). The claim: every file handle opened by \<^verbatim>\<open>read\<close> or
  \<^verbatim>\<open>write\<close> is closed on every exit path, the failure to create the codec structures
  included. When \<^verbatim>\<open>png_create_read_struct\<close> returns a null pointer, \<^verbatim>\<open>read\<close> throws at
  line 85 with the file, opened at line 79, still open; before the call no file was open.
\<close>

theorem read_leaves_file_open:
  "fst (read no_read_struct world_2x4 ''nw.png'' (replicate 16 0) 2 4 False)
     = Some (runtime_error ''unable to create PNG read struct'')
   \<and> open_files world_2x4 = []
   \<and> open_files (snd (snd (read no_read_struct world_2x4 ''nw.png'' (replicate 16 0) 2 4 False)))
       = [''nw.png'']"
  by code_simp

theorem read_leaves_file_open_witness:
  "open_files (snd (snd (read no_read_struct world_2x4 ''nw.png'' (replicate 16 0) 2 4 False)))
     = [''nw.png'']"
  using read_leaves_file_open by (rule conjunct2 [THEN conjunct2])

end
